theory Spec2Isabelle
  imports Main
begin

section \<open>Text normalizer: \<open>clean_text\<close>\<close>

text \<open>
  A Python \<open>str\<close> is a sequence of Unicode code points, and the program distinguishes
  code points beyond one byte (U+200B, U+FEFF), so a string is a list of code points and
  \<open>length\<close> is Python's \<open>len\<close>.
\<close>

type_synonym ustr = "nat list"

definition u :: "string \<Rightarrow> ustr" where
  \<comment> \<open>an ASCII literal of the source as a code point list\<close>
  "u s = map of_char s"

definition is_control :: "nat \<Rightarrow> bool" where
  \<comment> \<open>the character class \<open>[\x00-\x08\x0b-\x0c\x0e-\x1f\x7f-\x9f]\<close>\<close>
  "is_control c = (c \<le> 0x08 \<or> (0x0b \<le> c \<and> c \<le> 0x0c) \<or> (0x0e \<le> c \<and> c \<le> 0x1f)
                   \<or> (0x7f \<le> c \<and> c \<le> 0x9f))"

definition isspace :: "nat \<Rightarrow> bool" where
  \<comment> \<open>Python's Unicode whitespace: what \<open>\s\<close> matches in a \<open>str\<close> pattern and what
      \<open>str.strip()\<close> removes\<close>
  "isspace c = ((0x09 \<le> c \<and> c \<le> 0x0d) \<or> (0x1c \<le> c \<and> c \<le> 0x20) \<or> c = 0x85 \<or> c = 0xa0
                \<or> c = 0x1680 \<or> (0x2000 \<le> c \<and> c \<le> 0x200a) \<or> c = 0x2028 \<or> c = 0x2029
                \<or> c = 0x202f \<or> c = 0x205f \<or> c = 0x3000)"

function sub_whitespace :: "ustr \<Rightarrow> ustr" where
  \<comment> \<open>\<open>re.sub(r"\s+", " ", text)\<close>: every maximal run of whitespace becomes one space\<close>
  "sub_whitespace [] = []"
| "sub_whitespace (c # cs) =
     (if isspace c then 0x20 # sub_whitespace (dropWhile isspace cs)
      else c # sub_whitespace cs)"
  by pat_completeness auto
termination
  by (relation "measure length") (auto simp: length_dropWhile_le less_Suc_eq_le)

definition replace_char :: "nat \<Rightarrow> ustr \<Rightarrow> ustr \<Rightarrow> ustr" where
  \<comment> \<open>\<open>text.replace(old, new)\<close> for a one-character \<open>old\<close>\<close>
  "replace_char old new text = concat (map (\<lambda>c. if c = old then new else [c]) text)"

definition strip :: "ustr \<Rightarrow> ustr" where
  \<comment> \<open>\<open>str.strip()\<close>\<close>
  "strip text = rev (dropWhile isspace (rev (dropWhile isspace text)))"

definition clean_text :: "ustr \<Rightarrow> ustr" where
  "clean_text text =
     (if text = [] then []
      else
        let text = filter (\<lambda>c. \<not> is_control c) text;
            text = sub_whitespace text;
            text = replace_char 0xfeff [] (replace_char 0x200b [] (replace_char 0xa0 [0x20] text))
        in strip text)"

section \<open>The parsed document\<close>

text \<open>
  \<open>BeautifulSoup(html_content, "html.parser")\<close> is the library's parser; the model starts
  from the tree it builds. A node is a string or a tag with its name (lower case), its
  attribute dictionary and its children. An attribute value is a string, or a list of
  strings for a multi-valued attribute such as \<open>class\<close>. The \<open>BeautifulSoup\<close> object
  is itself a tag, named \<open>[document]\<close>, whose children are the top-level nodes. Strings
  that \<open>get_text\<close> leaves out (comments, doctype) are not part of the tree.
\<close>

datatype attr_value = AttrStr ustr | AttrList "ustr list"

datatype node =
    NavigableString ustr
  | Tag string "(string \<times> attr_value) list" "node list"

fun descendants :: "node \<Rightarrow> node list" where
  \<comment> \<open>\<open>Tag.descendants\<close>: all nodes below a tag, in document order\<close>
  "descendants (NavigableString s) = []"
| "descendants (Tag n a cs) = concat (map (\<lambda>c. c # descendants c) cs)"

fun is_tag :: "node \<Rightarrow> bool" where
  "is_tag (NavigableString s) = False"
| "is_tag (Tag n a cs) = True"

fun name :: "node \<Rightarrow> string" where
  "name (NavigableString s) = []"
| "name (Tag n a cs) = n"

fun get :: "node \<Rightarrow> string \<Rightarrow> attr_value option" where
  \<comment> \<open>\<open>tag.get(key)\<close>, \<open>None\<close> when the attribute is absent\<close>
  "get (NavigableString s) k = None"
| "get (Tag n a cs) k = map_of a k"

definition named :: "string list \<Rightarrow> node \<Rightarrow> bool" where
  \<comment> \<open>the tag-name filter of \<open>find\<close> and \<open>find_all\<close>\<close>
  "named ns e = (is_tag e \<and> name e \<in> set ns)"

definition find_all :: "(node \<Rightarrow> bool) \<Rightarrow> node \<Rightarrow> node list" where
  "find_all p e = filter (\<lambda>d. is_tag d \<and> p d) (descendants e)"

definition find_tag :: "(node \<Rightarrow> bool) \<Rightarrow> node \<Rightarrow> node option" where
  \<comment> \<open>\<open>find\<close>: the first result of \<open>find_all\<close>, or \<open>None\<close>\<close>
  "find_tag p e = (case find_all p e of [] \<Rightarrow> None | r # _ \<Rightarrow> Some r)"

fun decompose_all :: "string list \<Rightarrow> node \<Rightarrow> node" where
  \<comment> \<open>\<open>for tag in soup(names): tag.decompose()\<close>: every tag with one of the names is
      removed from the tree with everything below it\<close>
  "decompose_all ns (NavigableString s) = NavigableString s"
| "decompose_all ns (Tag n a cs) =
     Tag n a (concat (map (\<lambda>c. if named ns c then [] else [decompose_all ns c]) cs))"

definition all_strings :: "node \<Rightarrow> ustr list" where
  "all_strings e = concat (map (\<lambda>d. case d of NavigableString s \<Rightarrow> [s] | Tag n a cs \<Rightarrow> [])
                              (descendants e))"

definition get_text :: "node \<Rightarrow> ustr" where
  \<comment> \<open>\<open>tag.get_text()\<close>: the strings below the tag, joined with the empty separator\<close>
  "get_text e = concat (all_strings e)"

definition get_text_strip :: "node \<Rightarrow> ustr" where
  \<comment> \<open>\<open>tag.get_text(strip=True)\<close>: each string is stripped, empty ones are skipped\<close>
  "get_text_strip e = concat (filter (\<lambda>s. s \<noteq> []) (map strip (all_strings e)))"

subsection \<open>Attribute filters\<close>

definition join_space :: "ustr list \<Rightarrow> ustr" where
  \<comment> \<open>\<open>' '.join(values)\<close>\<close>
  "join_space vs = (case vs of [] \<Rightarrow> [] | v # ws \<Rightarrow> v @ concat (map (\<lambda>w. 0x20 # w) ws))"

fun matches_string :: "attr_value option \<Rightarrow> ustr \<Rightarrow> bool" where
  \<comment> \<open>the library's attribute match against a string without spaces: equality; for a
      multi-valued attribute, one of the values or their join\<close>
  "matches_string None s = False"
| "matches_string (Some (AttrStr v)) s = (v = s)"
| "matches_string (Some (AttrList vs)) s = (s \<in> set vs \<or> join_space vs = s)"

definition ignorecase_eq :: "nat \<Rightarrow> nat \<Rightarrow> bool" where
  \<comment> \<open>a lower-case ASCII letter \<open>p\<close> of a pattern compiled with \<open>re.I\<close> against a
      character \<open>c\<close>: the letter, its capital, and the letters Unicode folds to it\<close>
  "ignorecase_eq p c = (c = p \<or> c + 0x20 = p \<or> (p = 0x69 \<and> (c = 0x130 \<or> c = 0x131))
                        \<or> (p = 0x6b \<and> c = 0x212a) \<or> (p = 0x73 \<and> c = 0x17f))"

fun match_here :: "ustr \<Rightarrow> ustr \<Rightarrow> bool" where
  "match_here [] cs = True"
| "match_here (p # ps) [] = False"
| "match_here (p # ps) (c # cs) = (ignorecase_eq p c \<and> match_here ps cs)"

fun search_literal :: "ustr \<Rightarrow> ustr \<Rightarrow> bool" where
  \<comment> \<open>\<open>pattern.search(s)\<close> for one literal alternative: a match at some position\<close>
  "search_literal p [] = match_here p []"
| "search_literal p (c # cs) = (match_here p (c # cs) \<or> search_literal p cs)"

definition re_search :: "string list \<Rightarrow> ustr \<Rightarrow> bool" where
  \<comment> \<open>\<open>re.compile("a|b|c", re.I).search(s)\<close>, the alternatives given as a list\<close>
  "re_search alts s = list_ex (\<lambda>p. search_literal (u p) s) alts"

fun matches_regex :: "attr_value option \<Rightarrow> string list \<Rightarrow> bool" where
  "matches_regex None alts = False"
| "matches_regex (Some (AttrStr v)) alts = re_search alts v"
| "matches_regex (Some (AttrList vs)) alts =
     (list_ex (re_search alts) vs \<or> re_search alts (join_space vs))"

section \<open>Content extractor: \<open>extract_content\<close>\<close>

text \<open>
  A block is the dictionary \<open>{"type": ..., "text": ...}\<close>; the type is the string the
  source stores: \<open>title\<close>, \<open>paragraph\<close>, or the heading tag's name \<open>h1\<close> .. \<open>h6\<close>.
\<close>

record block =
  btype :: string
  btext :: ustr

datatype error = AttributeError | TypeError

type_synonym state = "block list \<times> ustr set"
  \<comment> \<open>\<open>content_structure\<close> and \<open>processed_texts\<close>\<close>

definition title_step :: "node \<Rightarrow> state \<Rightarrow> state" where
  \<comment> \<open>lines 128-133\<close>
  "title_step soup st =
     (case find_tag (named [''title'']) soup of
        None \<Rightarrow> st
      | Some title \<Rightarrow>
          let title_text = clean_text (get_text title) in
          if title_text \<noteq> [] \<and> length title_text > 3
          then (fst st @ [\<lparr>btype = ''title'', btext = title_text\<rparr>], insert title_text (snd st))
          else st)"

definition desc_step :: "node \<Rightarrow> state \<Rightarrow> error + state" where
  \<comment> \<open>lines 135-140; \<open>clean_text\<close> of a value that is not a string raises in \<open>re.sub\<close>\<close>
  "desc_step soup st =
     (case find_tag (\<lambda>e. named [''meta''] e \<and> matches_string (get e ''name'') (u ''description''))
             soup of
        None \<Rightarrow> Inr st
      | Some meta_desc \<Rightarrow>
          (case get meta_desc ''content'' of
             None \<Rightarrow> Inr st
           | Some (AttrList vs) \<Rightarrow> if vs = [] then Inr st else Inl TypeError
           | Some (AttrStr v) \<Rightarrow>
               if v = [] then Inr st
               else
                 let desc_text = clean_text v in
                 if desc_text \<noteq> [] \<and> length desc_text > 10
                 then Inr (fst st @ [\<lparr>btype = ''paragraph'', btext = desc_text\<rparr>],
                           insert desc_text (snd st))
                 else Inr st))"

definition or_else :: "'a option \<Rightarrow> 'a option \<Rightarrow> 'a option" where
  \<comment> \<open>Python's \<open>a or b\<close> on results of \<open>find\<close>: a tag is always true, \<open>None\<close> is false\<close>
  "or_else a b = (case a of Some x \<Rightarrow> Some x | None \<Rightarrow> b)"

definition main_content :: "node \<Rightarrow> node option" where
  \<comment> \<open>lines 142-148\<close>
  "main_content soup =
     or_else (find_tag (named [''main'']) soup)
    (or_else (find_tag (named [''article'']) soup)
    (or_else (find_tag (\<lambda>e. matches_regex (get e ''id'') [''content'', ''main'']) soup)
    (or_else (find_tag (\<lambda>e. matches_regex (get e ''class'') [''content'', ''main'', ''wrapper'']) soup)
             (find_tag (named [''body'']) soup))))"

definition content_tags :: "string list" where
  "content_tags = [''h1'', ''h2'', ''h3'', ''h4'', ''h5'', ''h6'', ''p'', ''li'', ''td'',
                   ''blockquote'', ''div'', ''span'', ''a'']"

definition element_text :: "node \<Rightarrow> ustr" where
  \<comment> \<open>line 167\<close>
  "element_text element = clean_text (get_text_strip element)"

definition loop_body :: "state \<Rightarrow> node \<Rightarrow> state" where
  \<comment> \<open>lines 167-180, one iteration\<close>
  "loop_body st element =
     (let text = element_text element in
      if text = [] \<or> length text < 10 \<or> text \<in> snd st then st
      else if length text < 20 \<and> name element \<in> set [''a'', ''span'', ''div''] then st
      else
        let processed_texts = insert text (snd st) in
        if name element \<in> set [''h1'', ''h2'', ''h3'', ''h4'', ''h5'', ''h6'']
        then (fst st @ [\<lparr>btype = name element, btext = text\<rparr>], processed_texts)
        else if length text > 30
        then (fst st @ [\<lparr>btype = ''paragraph'', btext = text\<rparr>], processed_texts)
        else (fst st, processed_texts))"

definition traverse :: "state \<Rightarrow> node list \<Rightarrow> state" where
  \<comment> \<open>the \<open>for\<close> loop over the elements \<open>find_all\<close> returned\<close>
  "traverse st elements = foldl loop_body st elements"

definition removed_tags :: "string list" where
  \<comment> \<open>line 122\<close>
  "removed_tags = [''script'', ''style'', ''noscript'', ''iframe'', ''svg'', ''path'']"

definition extract_content :: "node \<Rightarrow> error + block list" where
  \<comment> \<open>\<open>main_content.find_all\<close> on \<open>None\<close> raises \<open>AttributeError\<close>\<close>
  "extract_content html =
     (let soup = decompose_all removed_tags html
      in case desc_step soup (title_step soup ([], {})) of
           Inl e \<Rightarrow> Inl e
         | Inr st \<Rightarrow>
             (case main_content soup of
                None \<Rightarrow> Inl AttributeError
              | Some root \<Rightarrow> Inr (fst (traverse st (find_all (named content_tags) root)))))"

subsection \<open>Notions the statements below use\<close>

definition no_zero_width :: "ustr \<Rightarrow> bool" where
  \<comment> \<open>the string has no U+200B and no U+FEFF\<close>
  "no_zero_width s = (0x200b \<notin> set s \<and> 0xfeff \<notin> set s)"

fun single_spaced :: "ustr \<Rightarrow> bool" where
  \<comment> \<open>no two spaces next to each other\<close>
  "single_spaced [] = True"
| "single_spaced [c] = True"
| "single_spaced (a # b # cs) = (\<not> (a = 0x20 \<and> b = 0x20) \<and> single_spaced (b # cs))"

definition plain_spaces :: "ustr \<Rightarrow> bool" where
  \<comment> \<open>the only whitespace is the space, and never two in a row\<close>
  "plain_spaces s = (list_all (\<lambda>c. isspace c = (c = 0x20)) s \<and> single_spaced s)"

definition passes_length_rules :: "node \<Rightarrow> bool" where
  \<comment> \<open>the element is past the two length tests of lines 169 and 172\<close>
  "passes_length_rules element =
     (10 \<le> length (element_text element) \<and>
      \<not> (length (element_text element) < 20 \<and> name element \<in> set [''a'', ''span'', ''div'']))"

definition traversal_block :: "block \<Rightarrow> bool" where
  \<comment> \<open>what every block the loop appends satisfies\<close>
  "traversal_block b = (btype b \<noteq> ''title'' \<and> 10 \<le> length (btext b))"

definition texts_recorded :: "state \<Rightarrow> bool" where
  \<comment> \<open>the blocks have pairwise different texts, all of them in the set\<close>
  "texts_recorded st = (distinct (map btext (fst st)) \<and> btext ` set (fst st) \<subseteq> snd st)"

definition root_selectors :: "(node \<Rightarrow> bool) list" where
  \<comment> \<open>the fallback chain in the order the specification lists it\<close>
  "root_selectors =
     [named [''main''],
      named [''article''],
      (\<lambda>e. matches_regex (get e ''id'') [''content'', ''main'']),
      (\<lambda>e. matches_regex (get e ''class'') [''content'', ''main'', ''wrapper'']),
      named [''body'']]"

fun first_existing :: "(node \<Rightarrow> bool) list \<Rightarrow> node \<Rightarrow> node option" where
  \<comment> \<open>the specification's reading: try the selectors in order until one has a matching
      element in the document; the result is its first match in document order\<close>
  "first_existing [] soup = None"
| "first_existing (p # ps) soup =
     (if list_ex (\<lambda>d. is_tag d \<and> p d) (descendants soup)
      then List.find (\<lambda>d. is_tag d \<and> p d) (descendants soup)
      else first_existing ps soup)"

section \<open>Plain-text renderer: \<open>create_text_file\<close>\<close>

text \<open>
  \<open>str.upper\<close> is Python's Unicode upper-casing; the renderer takes it as the parameter
  \<open>upper\<close>.
\<close>

definition item_lines :: "(ustr \<Rightarrow> ustr) \<Rightarrow> block \<Rightarrow> ustr list" where
  \<comment> \<open>lines 227-241: what one item appends to \<open>text_content\<close>; \<open>int(item["type"][1])\<close> reads
      the digit after the \<open>h\<close>\<close>
  "item_lines upper item =
     (let text = btext item in
      if btype item = ''title''
      then [replicate 80 0x3d, upper text, replicate 80 0x3d, []]
      else if btype item \<in> set [''h1'', ''h2'', ''h3'', ''h4'']
      then (let level = of_char (btype item ! 1) - (0x30 :: nat)
            in [[], replicate level 0x23 @ [0x20] @ text, []])
      else if btype item = ''paragraph''
      then [text, []]
      else [])"

definition join_newline :: "ustr list \<Rightarrow> ustr" where
  \<comment> \<open>\<open>"\n".join(lines)\<close>\<close>
  "join_newline ls = (case ls of [] \<Rightarrow> [] | l # ms \<Rightarrow> l @ concat (map (\<lambda>m. 0x0a # m) ms))"

definition text_content :: "(ustr \<Rightarrow> ustr) \<Rightarrow> block list \<Rightarrow> ustr list" where
  \<comment> \<open>the list the loop builds\<close>
  "text_content upper content_structure =
     foldl (\<lambda>acc item. acc @ item_lines upper item) [] content_structure"

definition create_text_file :: "(ustr \<Rightarrow> ustr) \<Rightarrow> block list \<Rightarrow> ustr" where
  "create_text_file upper content_structure = join_newline (text_content upper content_structure)"

section \<open>Fetch orchestrator: \<open>setup_driver\<close> and \<open>fetch_with_selenium\<close>\<close>

text \<open>
  The browser and the page are outside the program. An environment says, for each call
  the source makes into Selenium or into the caller's progress callback, whether it
  returns or raises, and what the page source and title are. The state is the browser
  process of this call: not started, running, or stopped by \<open>driver.quit()\<close>. A
  \<open>webdriver.Chrome(...)\<close> that raises leaves no browser; one that returns leaves it
  running.
\<close>

datatype browser = NotStarted | Running | Stopped

datatype exc = CallbackError | WebDriverException | TimeoutException

datatype fetch_error = FetchError exc
  \<comment> \<open>\<open>Exception(f"Error fetching content: {str(e)}")\<close>\<close>

record env =
  callback_ok :: "nat \<Rightarrow> bool"
    \<comment> \<open>\<open>progress_callback(message, percent)\<close> returns; always true without a callback\<close>
  chrome_system_ok :: bool  \<comment> \<open>\<open>webdriver.Chrome(service=Service("/usr/bin/chromedriver"), ...)\<close>\<close>
  chrome_default_ok :: bool  \<comment> \<open>\<open>webdriver.Chrome(options=chrome_options)\<close>\<close>
  chrome_managed_ok :: bool  \<comment> \<open>\<open>ChromeDriverManager().install()\<close> and \<open>webdriver.Chrome\<close>\<close>
  hide_webdriver_ok :: bool  \<comment> \<open>the \<open>execute_script\<close> of \<open>setup_driver\<close>\<close>
  get_ok :: bool  \<comment> \<open>\<open>driver.get(url)\<close>\<close>
  body_present :: bool  \<comment> \<open>the wait finds \<open>body\<close> within 10 seconds\<close>
  scroll_ok :: "nat \<Rightarrow> bool"  \<comment> \<open>the three scroll scripts, numbered 1 to 3\<close>
  page_source :: "ustr option"  \<comment> \<open>\<open>driver.page_source\<close>, \<open>None\<close> when it raises\<close>
  page_title :: "ustr option"  \<comment> \<open>\<open>driver.title\<close>, \<open>None\<close> when it raises\<close>

definition setup_driver :: "env \<Rightarrow> (exc + unit) \<times> browser" where
  \<comment> \<open>lines 38-55: the result (the driver, or the exception raised) and the browser; the
      two bare \<open>except\<close> clauses fall back to the next way of starting Chrome, and the script
      of line 52 runs on the browser that was started\<close>
  "setup_driver e =
     (let started =
            (if hide_webdriver_ok e then (Inr (), Running) else (Inl WebDriverException, Running))
      in if chrome_system_ok e then started
         else if chrome_default_ok e then started
         else if chrome_managed_ok e then started
         else (Inl WebDriverException, NotStarted))"

definition after_creation :: "env \<Rightarrow> exc + (ustr \<times> ustr)" where
  \<comment> \<open>lines 67-99: the statements of the \<open>try\<close> block after \<open>driver = setup_driver()\<close>\<close>
  "after_creation e =
     (if \<not> callback_ok e 30 then Inl CallbackError
      else if \<not> get_ok e then Inl WebDriverException
      else if \<not> callback_ok e 50 then Inl CallbackError
      else if \<not> body_present e then Inl TimeoutException
      else if \<not> callback_ok e 70 then Inl CallbackError
      else if \<not> scroll_ok e 1 then Inl WebDriverException
      else if \<not> scroll_ok e 2 then Inl WebDriverException
      else if \<not> scroll_ok e 3 then Inl WebDriverException
      else case page_source e of
             None \<Rightarrow> Inl WebDriverException
           | Some html_content \<Rightarrow>
               (case page_title e of
                  None \<Rightarrow> Inl WebDriverException
                | Some title \<Rightarrow>
                    if \<not> callback_ok e 90 then Inl CallbackError
                    else Inr (html_content, title)))"

definition try_block :: "env \<Rightarrow> (exc + (ustr \<times> ustr)) \<times> unit option \<times> browser" where
  \<comment> \<open>lines 60-99: the outcome of the \<open>try\<close> block, the local \<open>driver\<close> when the block is
      left (\<open>None\<close> until the assignment), and the browser\<close>
  "try_block e =
     (if \<not> callback_ok e 10 then (Inl CallbackError, None, NotStarted)
      else case setup_driver e of
             (Inl x, b) \<Rightarrow> (Inl x, None, b)
           | (Inr d, b) \<Rightarrow> (after_creation e, Some d, b))"

definition fetch_with_selenium :: "env \<Rightarrow> (fetch_error + (ustr \<times> ustr)) \<times> browser" where
  \<comment> \<open>lines 101-105: \<open>except\<close> wraps the exception; \<open>finally\<close> quits the browser when
      \<open>driver\<close> is set\<close>
  "fetch_with_selenium e =
     (case try_block e of
        (r, driver, b) \<Rightarrow>
          ((case r of Inl x \<Rightarrow> Inl (FetchError x) | Inr v \<Rightarrow> Inr v),
           (case driver of None \<Rightarrow> b | Some d \<Rightarrow> Stopped)))"

section \<open>Concrete documents and environments\<close>

text \<open>
  Each document below is the tree \<open>html.parser\<close> builds for the HTML shown: the parser
  adds no \<open>html\<close>, \<open>head\<close> or \<open>body\<close> element of its own.
\<close>

definition acme_html :: node where
  \<comment> \<open>\<open><html><head><title>Acme Co</title></head><body><h1>Welcome to Acme</h1><p>Acme builds
      widgets for the modern era, delivering quality.</p><div>Nav</div></body></html>\<close>\<close>
  "acme_html =
     Tag ''[document]'' []
       [Tag ''html'' []
          [Tag ''head'' [] [Tag ''title'' [] [NavigableString (u ''Acme Co'')]],
           Tag ''body'' []
             [Tag ''h1'' [] [NavigableString (u ''Welcome to Acme'')],
              Tag ''p'' []
                [NavigableString
                   (u ''Acme builds widgets for the modern era, delivering quality.'')],
              Tag ''div'' [] [NavigableString (u ''Nav'')]]]]"

definition same_title_desc_html :: node where
  \<comment> \<open>\<open><html><head><title>Acme Widgets Inc</title><meta name="description"
      content="Acme Widgets Inc"></head><body></body></html>\<close>\<close>
  "same_title_desc_html =
     Tag ''[document]'' []
       [Tag ''html'' []
          [Tag ''head'' []
             [Tag ''title'' [] [NavigableString (u ''Acme Widgets Inc'')],
              Tag ''meta'' [(''name'', AttrStr (u ''description'')),
                            (''content'', AttrStr (u ''Acme Widgets Inc''))] []],
           Tag ''body'' [] []]]"

definition empty_html :: node where
  \<comment> \<open>the empty string\<close>
  "empty_html = Tag ''[document]'' [] []"

definition no_body_html :: node where
  \<comment> \<open>\<open><p>Hello world</p>\<close>\<close>
  "no_body_html = Tag ''[document]'' [] [Tag ''p'' [] [NavigableString (u ''Hello world'')]]"

definition short_p :: node where
  \<comment> \<open>\<open><p>Short text here</p>\<close>\<close>
  "short_p = Tag ''p'' [] [NavigableString (u ''Short text here'')]"

definition same_h2 :: node where
  \<comment> \<open>\<open><h2>Short text here</h2>\<close>\<close>
  "same_h2 = Tag ''h2'' [] [NavigableString (u ''Short text here'')]"

definition dropped_then_heading_html :: node where
  \<comment> \<open>\<open><html><body><p>Short text here</p><h2>Short text here</h2></body></html>\<close>\<close>
  "dropped_then_heading_html =
     Tag ''[document]'' [] [Tag ''html'' [] [Tag ''body'' [] [short_p, same_h2]]]"

definition heading_only_html :: node where
  \<comment> \<open>\<open><html><body><h2>Short text here</h2></body></html>\<close>\<close>
  "heading_only_html = Tag ''[document]'' [] [Tag ''html'' [] [Tag ''body'' [] [same_h2]]]"

definition svg_title :: node where
  \<comment> \<open>\<open><title>Company logo</title>\<close>\<close>
  "svg_title = Tag ''title'' [] [NavigableString (u ''Company logo'')]"

definition svg_title_html :: node where
  \<comment> \<open>\<open><html><head></head><body><svg><title>Company logo</title></svg><p>Acme builds widgets
      for the modern era, delivering quality.</p></body></html>\<close>\<close>
  "svg_title_html =
     Tag ''[document]'' []
       [Tag ''html'' []
          [Tag ''head'' [] [],
           Tag ''body'' []
             [Tag ''svg'' [] [svg_title],
              Tag ''p'' []
                [NavigableString
                   (u ''Acme builds widgets for the modern era, delivering quality.'')]]]]"

definition script_fails_env :: env where
  \<comment> \<open>the system Chrome starts, then the script of \<open>setup_driver\<close> raises\<close>
  "script_fails_env =
     \<lparr>callback_ok = (\<lambda>n. True), chrome_system_ok = True, chrome_default_ok = True,
      chrome_managed_ok = True, hide_webdriver_ok = False, get_ok = True, body_present = True,
      scroll_ok = (\<lambda>n. True), page_source = Some [], page_title = Some []\<rparr>"

definition timeout_env :: env where
  \<comment> \<open>the browser starts and the page loads, but no \<open>body\<close> appears within the wait\<close>
  "timeout_env =
     \<lparr>callback_ok = (\<lambda>n. True), chrome_system_ok = False, chrome_default_ok = True,
      chrome_managed_ok = True, hide_webdriver_ok = True, get_ok = True, body_present = False,
      scroll_ok = (\<lambda>n. True), page_source = Some [], page_title = Some []\<rparr>"

section \<open>Properties\<close>

subsection \<open>Evaluation\<close>

lemmas text_defs =
  clean_text_def u_def is_control_def isspace_def replace_char_def strip_def

lemmas tree_defs =
  find_tag_def find_all_def named_def get_text_def get_text_strip_def all_strings_def
  removed_tags_def content_tags_def re_search_def ignorecase_eq_def join_space_def

lemmas extract_defs =
  extract_content_def title_step_def desc_step_def main_content_def or_else_def traverse_def
  loop_body_def element_text_def Let_def

lemma acme_extract:
  "extract_content acme_html =
     Inr [\<lparr>btype = ''title'', btext = u ''Acme Co''\<rparr>,
          \<lparr>btype = ''h1'', btext = u ''Welcome to Acme''\<rparr>,
          \<lparr>btype = ''paragraph'',
           btext = u ''Acme builds widgets for the modern era, delivering quality.''\<rparr>]"
  by (simp add: acme_html_def extract_defs tree_defs text_defs)

lemma acme_title:
  "find_tag (named [''title'']) (decompose_all removed_tags acme_html) =
     Some (Tag ''title'' [] [NavigableString (u ''Acme Co'')])"
  by (simp add: acme_html_def tree_defs)

lemma acme_title_text:
  "clean_text (get_text (Tag ''title'' [] [NavigableString (u ''Acme Co'')])) = u ''Acme Co''"
  by (simp add: tree_defs text_defs)

lemma acme_head:
  "desc_step (decompose_all removed_tags acme_html)
     (title_step (decompose_all removed_tags acme_html) ([], {})) =
   Inr ([\<lparr>btype = ''title'', btext = u ''Acme Co''\<rparr>], {u ''Acme Co''})"
  by (simp add: acme_html_def title_step_def desc_step_def Let_def tree_defs text_defs)

lemma short_text: "element_text short_p = u ''Short text here''"
  by (simp add: short_p_def element_text_def tree_defs text_defs)

lemma same_text: "element_text same_h2 = u ''Short text here''"
  by (simp add: same_h2_def element_text_def tree_defs text_defs)

lemma traverse_short_p: "traverse ([], {}) [short_p] = ([], {u ''Short text here''})"
  by (simp add: traverse_def loop_body_def short_text Let_def) (simp add: short_p_def u_def)

lemma dropped_head:
  "desc_step dropped_then_heading_html (title_step dropped_then_heading_html ([], {})) =
     Inr ([], {})"
  by (simp add: dropped_then_heading_html_def short_p_def same_h2_def title_step_def
      desc_step_def tree_defs)

subsection \<open>Normal forms of the normalizer\<close>

lemma isspace_space: "isspace 0x20"
  by (simp add: isspace_def)

lemma sub_whitespace_set: "set (sub_whitespace s) \<subseteq> insert 0x20 (set s)"
proof (induction s rule: sub_whitespace.induct)
  case 1
  then show ?case by simp
next
  case (2 c cs)
  have "set (dropWhile isspace cs) \<subseteq> set cs" by (auto dest: set_dropWhileD)
  then show ?case using 2 by auto
qed

lemma sub_whitespace_hd:
  "s \<noteq> [] \<Longrightarrow> \<not> isspace (hd s) \<Longrightarrow> sub_whitespace s \<noteq> [] \<and> hd (sub_whitespace s) = hd s"
  by (cases s) auto

lemma single_spaced_Cons:
  "single_spaced (a # s) = ((a = 0x20 \<longrightarrow> s = [] \<or> hd s \<noteq> 0x20) \<and> single_spaced s)"
  by (cases s) auto

lemma dropWhile_hd: "dropWhile P s \<noteq> [] \<Longrightarrow> \<not> P (hd (dropWhile P s))"
  by (simp add: hd_dropWhile)

lemma sub_whitespace_plain: "plain_spaces (sub_whitespace s)"
proof (induction s rule: sub_whitespace.induct)
  case 1
  then show ?case by (simp add: plain_spaces_def)
next
  case (2 c cs)
  show ?case
  proof (cases "isspace c")
    case True
    let ?d = "dropWhile isspace cs"
    have ih: "plain_spaces (sub_whitespace ?d)" using 2 True by simp
    have "sub_whitespace ?d = [] \<or> hd (sub_whitespace ?d) \<noteq> 0x20"
    proof (cases "?d = []")
      case True
      then show ?thesis by (metis sub_whitespace.simps(1))
    next
      case False
      then have n: "\<not> isspace (hd ?d)" by (rule dropWhile_hd)
      then have "hd (sub_whitespace ?d) = hd ?d" using False sub_whitespace_hd by blast
      then show ?thesis using n isspace_space by auto
    qed
    then show ?thesis using ih True
      by (simp add: plain_spaces_def single_spaced_Cons isspace_space)
  next
    case False
    then have "c \<noteq> 0x20" using isspace_space by auto
    then show ?thesis using 2 False
      by (simp add: plain_spaces_def single_spaced_Cons)
  qed
qed

lemma sub_whitespace_id: "plain_spaces s \<Longrightarrow> sub_whitespace s = s"
proof (induction s rule: sub_whitespace.induct)
  case 1
  then show ?case by simp
next
  case (2 c cs)
  have tl: "plain_spaces cs" using 2(3) by (simp add: plain_spaces_def single_spaced_Cons)
  show ?case
  proof (cases "isspace c")
    case True
    then have c: "c = 0x20" using 2(3) by (simp add: plain_spaces_def)
    have "cs = [] \<or> \<not> isspace (hd cs)"
    proof (cases cs)
      case Nil
      then show ?thesis by simp
    next
      case (Cons d ds)
      then have "d \<noteq> 0x20" using 2(3) c by (simp add: plain_spaces_def)
      moreover have "isspace d = (d = 0x20)" using tl Cons by (simp add: plain_spaces_def)
      ultimately show ?thesis using Cons by simp
    qed
    then have "dropWhile isspace cs = cs" by (cases cs) auto
    then show ?thesis using 2(1) True tl c by simp
  next
    case False
    then show ?thesis using 2(2) tl by simp
  qed
qed

lemma single_spaced_append: "single_spaced (xs @ ys) \<Longrightarrow> single_spaced xs \<and> single_spaced ys"
proof (induction xs rule: single_spaced.induct)
  case 1
  then show ?case by simp
next
  case (2 c)
  then show ?case by (simp add: single_spaced_Cons)
next
  case (3 a b cs)
  then show ?case by simp
qed

lemma plain_spaces_append: "plain_spaces (xs @ ys) \<Longrightarrow> plain_spaces xs \<and> plain_spaces ys"
  using single_spaced_append[of xs ys] by (simp add: plain_spaces_def)

lemma strip_decomp: "\<exists>l r. s = l @ strip s @ r"
proof -
  let ?d = "dropWhile isspace s"
  have "s = takeWhile isspace s @ ?d" by simp
  moreover have "rev ?d = takeWhile isspace (rev ?d) @ dropWhile isspace (rev ?d)" by simp
  then have "?d = strip s @ rev (takeWhile isspace (rev ?d))"
    unfolding strip_def by (metis rev_append rev_rev_ident)
  ultimately show ?thesis by metis
qed

lemma strip_plain: "plain_spaces s \<Longrightarrow> plain_spaces (strip s)"
proof -
  assume a: "plain_spaces s"
  obtain l r where "s = l @ strip s @ r" using strip_decomp by blast
  then have "plain_spaces (l @ strip s @ r)" using a by simp
  then show ?thesis using plain_spaces_append by blast
qed

lemma strip_set: "set (strip s) \<subseteq> set s"
proof -
  obtain l r where "s = l @ strip s @ r" using strip_decomp by blast
  then have "set s = set l \<union> set (strip s) \<union> set r" by (metis set_append sup_assoc)
  then show ?thesis by blast
qed

lemma dropWhile_fix: "s = [] \<or> \<not> P (hd s) \<Longrightarrow> dropWhile P s = s"
  by (cases s) auto

lemma strip_strip: "strip (strip s) = strip s"
proof -
  let ?d = "dropWhile isspace s"
  let ?z = "dropWhile isspace (rev ?d)"
  have z: "?z = [] \<or> \<not> isspace (hd ?z)" using dropWhile_hd[of isspace "rev ?d"] by blast
  have "rev ?z = [] \<or> \<not> isspace (hd (rev ?z))"
  proof (cases "?z = []")
    case True
    then show ?thesis by simp
  next
    case False
    have "rev ?d = takeWhile isspace (rev ?d) @ ?z" by simp
    then have "?d = rev ?z @ rev (takeWhile isspace (rev ?d))" by (metis rev_append rev_rev_ident)
    then have "hd ?d = hd (rev ?z)" using False by (metis hd_append2 rev_is_Nil_conv)
    moreover have "?d \<noteq> []" using False by (metis dropWhile.simps(1) rev.simps(1))
    then have "\<not> isspace (hd ?d)" by (rule dropWhile_hd)
    ultimately show ?thesis by simp
  qed
  then have 1: "dropWhile isspace (rev ?z) = rev ?z" by (rule dropWhile_fix)
  have 2: "dropWhile isspace ?z = ?z" using z by (rule dropWhile_fix)
  show ?thesis unfolding strip_def using 1 2 by simp
qed

lemma replace_char_absent: "c \<notin> set s \<Longrightarrow> replace_char c new s = s"
  unfolding replace_char_def by (induction s) auto

lemma clean_text_eq_strip:
  assumes "no_zero_width s"
  shows "clean_text s = strip (sub_whitespace (filter (\<lambda>c. \<not> is_control c) s))"
proof (cases "s = []")
  case True
  then show ?thesis by (simp add: clean_text_def strip_def)
next
  case False
  let ?w = "sub_whitespace (filter (\<lambda>c. \<not> is_control c) s)"
  have p: "plain_spaces ?w" by (rule sub_whitespace_plain)
  have sub: "set ?w \<subseteq> insert 0x20 (set s)" using sub_whitespace_set[of "filter (\<lambda>c. \<not> is_control c) s"] by auto
  have "isspace 0xa0" by (simp add: isspace_def)
  then have a: "0xa0 \<notin> set ?w" using p by (auto simp: plain_spaces_def list_all_iff)
  have b: "0x200b \<notin> set ?w" "0xfeff \<notin> set ?w" using sub assms by (auto simp: no_zero_width_def)
  show ?thesis using False a b by (simp add: clean_text_def replace_char_absent)
qed

subsection \<open>The fallback chain\<close>

lemma first_of_filter: "(case filter P xs of [] \<Rightarrow> None | r # _ \<Rightarrow> Some r) = List.find P xs"
  by (induction xs) auto

lemma find_tag_find: "find_tag p soup = List.find (\<lambda>d. is_tag d \<and> p d) (descendants soup)"
  unfolding find_tag_def find_all_def by (rule first_of_filter)

lemma find_tag_None:
  "find_tag p soup = None \<longleftrightarrow> \<not> list_ex (\<lambda>d. is_tag d \<and> p d) (descendants soup)"
  by (auto simp: find_tag_find find_None_iff list_ex_iff)

lemma first_existing_Cons:
  "first_existing (p # ps) soup = or_else (find_tag p soup) (first_existing ps soup)"
proof (cases "find_tag p soup")
  case None
  then show ?thesis using find_tag_None[of p soup] by (simp add: or_else_def)
next
  case (Some a)
  then have "list_ex (\<lambda>d. is_tag d \<and> p d) (descendants soup)"
    using find_tag_None[of p soup] by auto
  then show ?thesis using Some by (simp add: or_else_def find_tag_find)
qed

text \<open>
  C8. The content root the code selects is the one the fallback chain of the
  specification selects: the selectors \<open>main\<close>, \<open>article\<close>, id matching
  \<open>content|main\<close>, class matching \<open>content|main|wrapper\<close> and \<open>body\<close> are tried in this
  order, the first selector with a matching element in the document decides, and the
  root is its first match in document order (matching is the regular-expression search,
  ignoring case). When not even a body exists there is no root.
\<close>

theorem main_content_is_first_existing:
  "main_content soup = first_existing root_selectors soup"
  unfolding root_selectors_def main_content_def
  by (simp only: first_existing_Cons) (simp add: or_else_def split: option.splits)

subsection \<open>The traversal loop\<close>

lemma loop_body_cases:
  "loop_body st e = st \<or>
   (passes_length_rules e \<and> element_text e \<notin> snd st \<and>
    snd (loop_body st e) = insert (element_text e) (snd st) \<and>
    (fst (loop_body st e) = fst st \<or>
     (\<exists>ty. ty \<noteq> ''title'' \<and>
        fst (loop_body st e) = fst st @ [\<lparr>btype = ty, btext = element_text e\<rparr>])))"
  by (auto simp: loop_body_def passes_length_rules_def Let_def)

lemma loop_body_snd:
  "snd (loop_body st e) =
     (if passes_length_rules e then insert (element_text e) (snd st) else snd st)"
  by (auto simp: loop_body_def passes_length_rules_def Let_def)

lemma loop_body_skip: "element_text e \<in> snd st \<Longrightarrow> loop_body st e = st"
  by (simp add: loop_body_def Let_def)

lemma traverse_Nil: "traverse st [] = st"
  by (simp add: traverse_def)

lemma traverse_Cons: "traverse st (e # es) = traverse (loop_body st e) es"
  by (simp add: traverse_def)

lemma traverse_snoc: "traverse st (es @ [e]) = loop_body (traverse st es) e"
  by (simp add: traverse_def)

lemma traverse_snd:
  "snd (traverse st es) = snd st \<union> {element_text e | e. e \<in> set es \<and> passes_length_rules e}"
proof (induction es arbitrary: st)
  case Nil
  then show ?case by (simp add: traverse_Nil)
next
  case (Cons a es)
  show ?case unfolding traverse_Cons Cons.IH loop_body_snd by auto
qed

lemma loop_body_recorded: "texts_recorded st \<Longrightarrow> texts_recorded (loop_body st e)"
proof -
  assume a: "texts_recorded st"
  then have d: "distinct (map btext (fst st))"
    and m: "\<And>b. b \<in> set (fst st) \<Longrightarrow> btext b \<in> snd st"
    by (auto simp: texts_recorded_def)
  from loop_body_cases[of st e] show ?thesis
  proof (elim disjE conjE exE)
    assume "loop_body st e = st"
    then show ?thesis using a by simp
  next
    assume "snd (loop_body st e) = insert (element_text e) (snd st)"
      "fst (loop_body st e) = fst st"
    then show ?thesis using d m by (auto simp: texts_recorded_def)
  next
    fix ty
    assume "element_text e \<notin> snd st"
      "snd (loop_body st e) = insert (element_text e) (snd st)"
      "fst (loop_body st e) = fst st @ [\<lparr>btype = ty, btext = element_text e\<rparr>]"
    then show ?thesis using d m by (auto simp: texts_recorded_def)
  qed
qed

lemma traverse_recorded: "texts_recorded st \<Longrightarrow> texts_recorded (traverse st es)"
  by (induction es arbitrary: st) (auto simp: traverse_Nil traverse_Cons loop_body_recorded)

lemma loop_body_blocks:
  "\<exists>rs. fst (loop_body st e) = fst st @ rs \<and> list_all traversal_block rs"
  using loop_body_cases[of st e]
  by (auto simp: traversal_block_def passes_length_rules_def)

lemma traverse_blocks:
  "\<exists>rs. fst (traverse st es) = fst st @ rs \<and> list_all traversal_block rs"
proof (induction es arbitrary: st)
  case Nil
  then show ?case by (simp add: traverse_Nil)
next
  case (Cons a es)
  obtain r1 where r1: "fst (loop_body st a) = fst st @ r1" "list_all traversal_block r1"
    using loop_body_blocks by blast
  obtain r2 where r2: "fst (traverse (loop_body st a) es) = fst (loop_body st a) @ r2"
      "list_all traversal_block r2"
    using Cons.IH by blast
  show ?case unfolding traverse_Cons using r1 r2 by auto
qed

subsection \<open>Title and description\<close>

lemma title_step_cases:
  "title_step soup st = st \<or>
   (\<exists>t. find_tag (named [''title'']) soup = Some t \<and> 3 < length (clean_text (get_text t)) \<and>
      title_step soup st = (fst st @ [\<lparr>btype = ''title'', btext = clean_text (get_text t)\<rparr>],
                            insert (clean_text (get_text t)) (snd st)))"
  by (auto simp: title_step_def Let_def split: option.splits)

lemma title_step_found:
  "find_tag (named [''title'']) soup = Some t \<Longrightarrow> 3 < length (clean_text (get_text t)) \<Longrightarrow>
   title_step soup st = (fst st @ [\<lparr>btype = ''title'', btext = clean_text (get_text t)\<rparr>],
                         insert (clean_text (get_text t)) (snd st))"
  by (auto simp: title_step_def Let_def)

lemma desc_step_cases:
  "desc_step soup st = Inr st' \<Longrightarrow>
   st' = st \<or> (\<exists>t. 10 < length t \<and>
                  st' = (fst st @ [\<lparr>btype = ''paragraph'', btext = t\<rparr>], insert t (snd st)))"
  by (auto simp: desc_step_def Let_def split: option.splits attr_value.splits if_splits)

lemma head_state_seen:
  assumes "desc_step soup (title_step soup ([], {})) = Inr st"
  shows "snd st = btext ` set (fst st)"
  using desc_step_cases[OF assms] title_step_cases[of soup "([], {})"] by auto

subsection \<open>The renderer's loop\<close>

lemma text_content_concat: "text_content upper cs = concat (map (item_lines upper) cs)"
proof -
  have "foldl (\<lambda>acc item. acc @ item_lines upper item) a cs =
          a @ concat (map (item_lines upper) cs)" for a
    by (induction cs arbitrary: a) auto
  then show ?thesis by (simp add: text_content_def)
qed

section \<open>Properties of the specification\<close>

text \<open>
  C1. The claim that no two blocks of a result share their text fails on the code when
  the meta description repeats the title: the description is appended without the
  membership test the loop makes. On \<open>same_title_desc_html\<close> the result is a title
  block and a paragraph block with the same text.
\<close>

theorem title_and_description_share_text:
  "extract_content same_title_desc_html =
     Inr [\<lparr>btype = ''title'', btext = u ''Acme Widgets Inc''\<rparr>,
          \<lparr>btype = ''paragraph'', btext = u ''Acme Widgets Inc''\<rparr>]"
  by (simp add: same_title_desc_html_def extract_defs tree_defs text_defs)

text \<open>
  C2. The claim that extraction returns for every input fails on the code when the
  document has no \<open>main\<close>, no \<open>article\<close>, no matching id or class and no \<open>body\<close>:
  \<open>main_content\<close> is \<open>None\<close> and \<open>main_content.find_all\<close> raises. The parser adds no
  body, so the empty string and \<open><p>Hello world</p>\<close> are such inputs.
\<close>

theorem extract_content_raises_without_body:
  "extract_content empty_html = Inl AttributeError \<and>
   extract_content no_body_html = Inl AttributeError"
  by (simp add: empty_html_def no_body_html_def extract_defs tree_defs)

text \<open>
  C3, as amended. The set the membership test reads starts as the texts of the title
  and description blocks emitted. After the loop has visited the elements \<open>pre\<close> it
  holds, besides those, the text of every visited element that passed the two length
  rules, whether a block was emitted for it or not: a text enters the set when its
  element passes the length rules and the membership test, before the element is
  classified. An element whose text is in the set is skipped and changes nothing.
\<close>

theorem dedup_set_holds_texts_past_length_rules:
  assumes "desc_step soup (title_step soup ([], {})) = Inr st"
  shows "snd st = btext ` set (fst st) \<and>
         snd (traverse st pre) =
           snd st \<union> {element_text d | d. d \<in> set pre \<and> passes_length_rules d} \<and>
         (element_text e \<in> snd (traverse st pre) \<longrightarrow>
            traverse st (pre @ [e]) = traverse st pre)"
  using head_state_seen[OF assms] traverse_snd[of st pre]
        loop_body_skip[of e "traverse st pre"]
  by (simp add: traverse_snoc)

theorem dedup_set_holds_texts_past_length_rules_witness:
  "desc_step dropped_then_heading_html (title_step dropped_then_heading_html ([], {})) =
     Inr ([], {}) \<and>
   passes_length_rules short_p \<and>
   element_text same_h2 \<in> snd (traverse ([], {}) [short_p]) \<and>
   traverse ([], {}) ([short_p] @ [same_h2]) = traverse ([], {}) [short_p]"
proof -
  have p: "passes_length_rules short_p"
    by (simp add: passes_length_rules_def short_text) (simp add: u_def short_p_def)
  have m: "element_text same_h2 \<in> snd (traverse ([], {}) [short_p])"
    by (simp add: traverse_short_p same_text)
  have "element_text same_h2 \<in> snd (traverse ([], {}) [short_p]) \<longrightarrow>
          traverse ([], {}) ([short_p] @ [same_h2]) = traverse ([], {}) [short_p]"
    using dedup_set_holds_texts_past_length_rules[OF dropped_head, of "[short_p]" same_h2]
    by (rule conjunct2[OF conjunct2])
  then have "traverse ([], {}) ([short_p] @ [same_h2]) = traverse ([], {}) [short_p]"
    using m by (rule mp)
  then show ?thesis using dropped_head p m by (intro conjI)
qed

text \<open>
  C3 as stated fails: in \<open><p>Short text here</p><h2>Short text here</h2>\<close> the paragraph
  passes the length rules, is too short for a paragraph block and is dropped, yet its
  text is in the set, no block carries it, and the heading after it is suppressed: the
  result is empty, while the heading alone is emitted.
\<close>

theorem dropped_text_suppresses_heading:
  "traverse ([], {}) [short_p] = ([], {u ''Short text here''}) \<and>
   extract_content dropped_then_heading_html = Inr [] \<and>
   extract_content heading_only_html = Inr [\<lparr>btype = ''h2'', btext = u ''Short text here''\<rparr>]"
proof -
  have "extract_content dropped_then_heading_html = Inr []"
    by (simp add: dropped_then_heading_html_def short_p_def same_h2_def extract_defs tree_defs
        text_defs)
  moreover have "extract_content heading_only_html =
      Inr [\<lparr>btype = ''h2'', btext = u ''Short text here''\<rparr>]"
    by (simp add: heading_only_html_def same_h2_def extract_defs tree_defs text_defs)
  ultimately show ?thesis using traverse_short_p by simp
qed

text \<open>
  C4. Normalization is not idempotent on the five-character string \<open>a\<close>, space, U+200B,
  space, \<open>b\<close>: the whitespace runs are collapsed before the zero-width space between
  them is removed, so the first pass returns \<open>a\<close>, two spaces, \<open>b\<close>, and the second pass
  removes one of the spaces.
\<close>

theorem clean_text_not_idempotent:
  "clean_text [0x61, 0x20, 0x200b, 0x20, 0x62] = [0x61, 0x20, 0x20, 0x62] \<and>
   clean_text (clean_text [0x61, 0x20, 0x200b, 0x20, 0x62]) = [0x61, 0x20, 0x62]"
  by (simp add: text_defs)

text \<open>
  C5, as amended. When the first \<open>title\<close> element of the document, after the script,
  style, noscript, iframe, svg and path elements are removed, has a normalized text longer
  than 3, and the extraction returns, the first block is the title block with that text
  and no other block has the type \<open>title\<close>.
\<close>

theorem first_title_is_first_block:
  assumes "find_tag (named [''title'']) (decompose_all removed_tags html) = Some t"
    and "3 < length (clean_text (get_text t))"
    and "extract_content html = Inr bs"
  shows "\<exists>rest. bs = \<lparr>btype = ''title'', btext = clean_text (get_text t)\<rparr> # rest \<and>
                list_all (\<lambda>b. btype b \<noteq> ''title'') rest"
proof -
  let ?soup = "decompose_all removed_tags html"
  let ?tb = "\<lparr>btype = ''title'', btext = clean_text (get_text t)\<rparr>"
  have ts: "fst (title_step ?soup ([], {})) = [?tb]"
    using title_step_found[OF assms(1,2), of "([], {})"] by simp
  from assms(3) obtain st root where
    st: "desc_step ?soup (title_step ?soup ([], {})) = Inr st"
    and bs: "bs = fst (traverse st (find_all (named content_tags) root))"
    by (auto simp: extract_content_def Let_def split: sum.splits option.splits)
  from desc_step_cases[OF st] ts obtain ds where
    ds: "fst st = ?tb # ds" "list_all (\<lambda>b. btype b \<noteq> ''title'') ds"
    by auto
  obtain rs where rs: "bs = fst st @ rs" "list_all traversal_block rs"
    using traverse_blocks[of st] bs by blast
  have "list_all (\<lambda>b. btype b \<noteq> ''title'') rs"
    using rs(2) by (simp add: list_all_iff traversal_block_def)
  then show ?thesis using ds rs(1) by simp
qed

theorem first_title_is_first_block_witness:
  "find_tag (named [''title'']) (decompose_all removed_tags acme_html) =
     Some (Tag ''title'' [] [NavigableString (u ''Acme Co'')]) \<and>
   3 < length (clean_text (get_text (Tag ''title'' [] [NavigableString (u ''Acme Co'')]))) \<and>
   (\<exists>rest. [\<lparr>btype = ''title'', btext = u ''Acme Co''\<rparr>,
            \<lparr>btype = ''h1'', btext = u ''Welcome to Acme''\<rparr>,
            \<lparr>btype = ''paragraph'',
             btext = u ''Acme builds widgets for the modern era, delivering quality.''\<rparr>] =
           \<lparr>btype = ''title'', btext = u ''Acme Co''\<rparr> # rest \<and>
           list_all (\<lambda>b. btype b \<noteq> ''title'') rest)"
proof -
  have l: "3 < length (clean_text (get_text (Tag ''title'' [] [NavigableString (u ''Acme Co'')])))"
    unfolding acme_title_text by (simp add: u_def)
  from first_title_is_first_block[OF acme_title l acme_extract]
  show ?thesis using acme_title l by (simp add: acme_title_text)
qed

text \<open>
  C5 as stated fails: \<open>svg_title_html\<close> contains a \<open>title\<close> element whose normalized
  text has 12 characters, inside an \<open>svg\<close> element; it is removed with the \<open>svg\<close>
  before the title is looked up, and the result has no title block.
\<close>

theorem title_inside_svg_gives_no_title_block:
  "svg_title \<in> set (descendants svg_title_html) \<and>
   name svg_title = ''title'' \<and>
   length (clean_text (get_text svg_title)) = 12 \<and>
   extract_content svg_title_html =
     Inr [\<lparr>btype = ''paragraph'',
           btext = u ''Acme builds widgets for the modern era, delivering quality.''\<rparr>]"
proof -
  have "extract_content svg_title_html =
     Inr [\<lparr>btype = ''paragraph'',
           btext = u ''Acme builds widgets for the modern era, delivering quality.''\<rparr>]"
    by (simp add: svg_title_html_def svg_title_def extract_defs tree_defs text_defs)
  moreover have "length (clean_text (get_text svg_title)) = 12"
    by (simp add: svg_title_def tree_defs text_defs)
  ultimately show ?thesis by (simp add: svg_title_html_def svg_title_def)
qed

text \<open>
  C6, as amended. The plain-text renderer renders a block of type \<open>h1\<close> .. \<open>h4\<close> as an
  empty line, the line of 1 .. 4 \<open>#\<close> characters, a space and the text, and an empty
  line: alone it gives the file of a newline, that line and a newline, and among other
  blocks its three lines stand between the lines of the blocks before and after it. A
  block of type \<open>h5\<close> or \<open>h6\<close> contributes nothing: the rendered file is the one rendered
  without that block.
\<close>

theorem text_file_headings_up_to_level_four:
  "create_text_file upper [\<lparr>btype = ''h1'', btext = t\<rparr>] =
     [0x0a] @ replicate 1 0x23 @ [0x20] @ t @ [0x0a] \<and>
   create_text_file upper [\<lparr>btype = ''h2'', btext = t\<rparr>] =
     [0x0a] @ replicate 2 0x23 @ [0x20] @ t @ [0x0a] \<and>
   create_text_file upper [\<lparr>btype = ''h3'', btext = t\<rparr>] =
     [0x0a] @ replicate 3 0x23 @ [0x20] @ t @ [0x0a] \<and>
   create_text_file upper [\<lparr>btype = ''h4'', btext = t\<rparr>] =
     [0x0a] @ replicate 4 0x23 @ [0x20] @ t @ [0x0a] \<and>
   create_text_file upper (bs @ \<lparr>btype = ''h1'', btext = t\<rparr> # cs) =
     join_newline (text_content upper bs @ [[], replicate 1 0x23 @ [0x20] @ t, []] @
                   text_content upper cs) \<and>
   create_text_file upper (bs @ \<lparr>btype = ''h2'', btext = t\<rparr> # cs) =
     join_newline (text_content upper bs @ [[], replicate 2 0x23 @ [0x20] @ t, []] @
                   text_content upper cs) \<and>
   create_text_file upper (bs @ \<lparr>btype = ''h3'', btext = t\<rparr> # cs) =
     join_newline (text_content upper bs @ [[], replicate 3 0x23 @ [0x20] @ t, []] @
                   text_content upper cs) \<and>
   create_text_file upper (bs @ \<lparr>btype = ''h4'', btext = t\<rparr> # cs) =
     join_newline (text_content upper bs @ [[], replicate 4 0x23 @ [0x20] @ t, []] @
                   text_content upper cs) \<and>
   create_text_file upper (bs @ \<lparr>btype = ''h5'', btext = t\<rparr> # cs) =
     create_text_file upper (bs @ cs) \<and>
   create_text_file upper (bs @ \<lparr>btype = ''h6'', btext = t\<rparr> # cs) =
     create_text_file upper (bs @ cs)"
proof -
  have l: "item_lines upper \<lparr>btype = ''h1'', btext = t\<rparr> = [[], replicate 1 0x23 @ [0x20] @ t, []]"
    "item_lines upper \<lparr>btype = ''h2'', btext = t\<rparr> = [[], replicate 2 0x23 @ [0x20] @ t, []]"
    "item_lines upper \<lparr>btype = ''h3'', btext = t\<rparr> = [[], replicate 3 0x23 @ [0x20] @ t, []]"
    "item_lines upper \<lparr>btype = ''h4'', btext = t\<rparr> = [[], replicate 4 0x23 @ [0x20] @ t, []]"
    by (simp_all add: item_lines_def Let_def)
  have d: "item_lines upper \<lparr>btype = ''h5'', btext = t\<rparr> = []"
    "item_lines upper \<lparr>btype = ''h6'', btext = t\<rparr> = []"
    by (simp_all add: item_lines_def)
  have one: "create_text_file upper [b] = join_newline (item_lines upper b)" for b
    by (simp add: create_text_file_def text_content_def)
  have ctx: "create_text_file upper (bs @ b # cs) =
      join_newline (text_content upper bs @ item_lines upper b @ text_content upper cs)" for b
    by (simp add: create_text_file_def text_content_concat)
  have single: "join_newline [[], x, []] = [0x0a] @ x @ [0x0a]" for x
    by (simp add: join_newline_def)
  have a1: "create_text_file upper [\<lparr>btype = ''h1'', btext = t\<rparr>] =
      [0x0a] @ replicate 1 0x23 @ [0x20] @ t @ [0x0a]"
    unfolding one l single by simp
  have a2: "create_text_file upper [\<lparr>btype = ''h2'', btext = t\<rparr>] =
      [0x0a] @ replicate 2 0x23 @ [0x20] @ t @ [0x0a]"
    unfolding one l single by simp
  have a3: "create_text_file upper [\<lparr>btype = ''h3'', btext = t\<rparr>] =
      [0x0a] @ replicate 3 0x23 @ [0x20] @ t @ [0x0a]"
    unfolding one l single by simp
  have a4: "create_text_file upper [\<lparr>btype = ''h4'', btext = t\<rparr>] =
      [0x0a] @ replicate 4 0x23 @ [0x20] @ t @ [0x0a]"
    unfolding one l single by simp
  have b5: "create_text_file upper (bs @ \<lparr>btype = ''h5'', btext = t\<rparr> # cs) =
      create_text_file upper (bs @ cs)"
    using d(1) by (simp add: create_text_file_def text_content_concat)
  have b6: "create_text_file upper (bs @ \<lparr>btype = ''h6'', btext = t\<rparr> # cs) =
      create_text_file upper (bs @ cs)"
    using d(2) by (simp add: create_text_file_def text_content_concat)
  show ?thesis
    using a1 a2 a3 a4 ctx[of "\<lparr>btype = ''h1'', btext = t\<rparr>"] ctx[of "\<lparr>btype = ''h2'', btext = t\<rparr>"]
      ctx[of "\<lparr>btype = ''h3'', btext = t\<rparr>"] ctx[of "\<lparr>btype = ''h4'', btext = t\<rparr>"] b5 b6
    unfolding l by (intro conjI)
qed

text \<open>
  C6 as stated fails: a single \<open>h5\<close> or \<open>h6\<close> block is rendered as the empty file, not as
  an empty line, the \<open>#\<close> characters with the text, and an empty line; and after an
  \<open>h4\<close> block, which is rendered, an \<open>h5\<close> block adds nothing to the file.
\<close>

theorem text_file_drops_level_five_and_six:
  "create_text_file (\<lambda>s. s) [\<lparr>btype = ''h5'', btext = u ''Fifth level''\<rparr>] = [] \<and>
   create_text_file (\<lambda>s. s) [\<lparr>btype = ''h5'', btext = u ''Fifth level''\<rparr>] \<noteq>
     [0x0a] @ replicate 5 0x23 @ [0x20] @ u ''Fifth level'' @ [0x0a] \<and>
   create_text_file (\<lambda>s. s) [\<lparr>btype = ''h6'', btext = u ''Sixth level''\<rparr>] = [] \<and>
   create_text_file (\<lambda>s. s) [\<lparr>btype = ''h6'', btext = u ''Sixth level''\<rparr>] \<noteq>
     [0x0a] @ replicate 6 0x23 @ [0x20] @ u ''Sixth level'' @ [0x0a] \<and>
   create_text_file (\<lambda>s. s)
     [\<lparr>btype = ''h4'', btext = u ''Fourth level''\<rparr>,
      \<lparr>btype = ''h5'', btext = u ''Fifth level''\<rparr>] =
     [0x0a] @ replicate 4 0x23 @ [0x20] @ u ''Fourth level'' @ [0x0a]"
  by (simp add: create_text_file_def text_content_def item_lines_def join_newline_def u_def)

text \<open>
  C7. When the extraction returns, its blocks are the blocks of the title and description
  steps followed by the blocks of the loop. A block of the first part is the title block,
  with a text longer than 3, or the description paragraph, with a text longer than 10;
  every block of the loop is not a title block and has a text of length at least 10. So
  every text is non-empty.
\<close>

theorem extract_content_text_lengths:
  assumes "extract_content html = Inr bs"
  shows "\<exists>st rest. desc_step (decompose_all removed_tags html)
                     (title_step (decompose_all removed_tags html) ([], {})) = Inr st \<and>
           bs = fst st @ rest \<and>
           list_all (\<lambda>b. (btype b = ''title'' \<and> 3 < length (btext b)) \<or>
                          (btype b = ''paragraph'' \<and> 10 < length (btext b))) (fst st) \<and>
           list_all (\<lambda>b. btype b \<noteq> ''title'' \<and> 10 \<le> length (btext b)) rest"
proof -
  let ?soup = "decompose_all removed_tags html"
  from assms obtain st root where
    st: "desc_step ?soup (title_step ?soup ([], {})) = Inr st"
    and bs: "bs = fst (traverse st (find_all (named content_tags) root))"
    by (auto simp: extract_content_def Let_def split: sum.splits option.splits)
  have t: "list_all (\<lambda>b. (btype b = ''title'' \<and> 3 < length (btext b)) \<or>
                          (btype b = ''paragraph'' \<and> 10 < length (btext b)))
             (fst (title_step ?soup ([], {})))"
    using title_step_cases[of ?soup "([], {})"] by auto
  have h: "list_all (\<lambda>b. (btype b = ''title'' \<and> 3 < length (btext b)) \<or>
                          (btype b = ''paragraph'' \<and> 10 < length (btext b))) (fst st)"
    using desc_step_cases[OF st] t by auto
  obtain rs where rs: "bs = fst st @ rs" "list_all traversal_block rs"
    using traverse_blocks[of st] bs by blast
  have "list_all (\<lambda>b. btype b \<noteq> ''title'' \<and> 10 \<le> length (btext b)) rs"
    using rs(2) by (simp add: list_all_iff traversal_block_def)
  then show ?thesis using st h rs(1) by blast
qed

theorem extract_content_text_lengths_witness:
  "extract_content acme_html =
     Inr [\<lparr>btype = ''title'', btext = u ''Acme Co''\<rparr>,
          \<lparr>btype = ''h1'', btext = u ''Welcome to Acme''\<rparr>,
          \<lparr>btype = ''paragraph'',
           btext = u ''Acme builds widgets for the modern era, delivering quality.''\<rparr>] \<and>
   (\<exists>st rest. desc_step (decompose_all removed_tags acme_html)
                (title_step (decompose_all removed_tags acme_html) ([], {})) = Inr st \<and>
       [\<lparr>btype = ''title'', btext = u ''Acme Co''\<rparr>,
        \<lparr>btype = ''h1'', btext = u ''Welcome to Acme''\<rparr>,
        \<lparr>btype = ''paragraph'',
         btext = u ''Acme builds widgets for the modern era, delivering quality.''\<rparr>] =
         fst st @ rest \<and>
       list_all (\<lambda>b. (btype b = ''title'' \<and> 3 < length (btext b)) \<or>
                      (btype b = ''paragraph'' \<and> 10 < length (btext b))) (fst st) \<and>
       list_all (\<lambda>b. btype b \<noteq> ''title'' \<and> 10 \<le> length (btext b)) rest)"
  using extract_content_text_lengths[OF acme_extract] acme_extract by (rule_tac conjI)

text \<open>
  C9. The claim that the browser is torn down on every exit path after its creation
  fails on the code when the script that \<open>setup_driver\<close> runs on the new browser raises:
  the exception leaves \<open>setup_driver\<close> before \<open>driver\<close> is assigned in
  \<open>fetch_with_selenium\<close>, the \<open>finally\<close> clause finds \<open>driver\<close> to be \<open>None\<close>, and the
  browser stays running after the call has raised.
\<close>

theorem browser_left_running_when_setup_script_raises:
  "fetch_with_selenium script_fails_env = (Inl (FetchError WebDriverException), Running)"
  by (simp add: fetch_with_selenium_def try_block_def setup_driver_def script_fails_env_def Let_def)

text \<open>
  C10. For the document of the scenario the extraction returns the title block
  \<open>Acme Co\<close>, the heading block of type \<open>h1\<close> with \<open>Welcome to Acme\<close>, and the paragraph
  block, in this order; the \<open>div\<close> with the text \<open>Nav\<close> gives no block.
\<close>

theorem acme_scenario:
  "extract_content acme_html =
     Inr [\<lparr>btype = ''title'', btext = u ''Acme Co''\<rparr>,
          \<lparr>btype = ''h1'', btext = u ''Welcome to Acme''\<rparr>,
          \<lparr>btype = ''paragraph'',
           btext = u ''Acme builds widgets for the modern era, delivering quality.''\<rparr>]"
  by (rule acme_extract)

section \<open>Further properties\<close>

text \<open>
  When the title and description blocks have different texts (or one of them is absent),
  all blocks of the result have pairwise different texts.
\<close>

theorem texts_distinct_when_head_distinct:
  assumes "extract_content html = Inr bs"
    and "desc_step (decompose_all removed_tags html)
           (title_step (decompose_all removed_tags html) ([], {})) = Inr st"
    and "distinct (map btext (fst st))"
  shows "distinct (map btext bs)"
proof -
  have "texts_recorded st"
    using head_state_seen[OF assms(2)] assms(3) by (simp add: texts_recorded_def)
  then have "texts_recorded (traverse st es)" for es by (rule traverse_recorded)
  then show ?thesis using assms(1,2)
    by (auto simp: extract_content_def Let_def texts_recorded_def
        split: sum.splits option.splits)
qed

theorem texts_distinct_when_head_distinct_witness:
  "distinct (map btext [\<lparr>btype = ''title'', btext = u ''Acme Co''\<rparr>]) \<and>
   distinct (map btext
     [\<lparr>btype = ''title'', btext = u ''Acme Co''\<rparr>,
      \<lparr>btype = ''h1'', btext = u ''Welcome to Acme''\<rparr>,
      \<lparr>btype = ''paragraph'',
       btext = u ''Acme builds widgets for the modern era, delivering quality.''\<rparr>])"
proof -
  have d: "distinct (map btext (fst ([\<lparr>btype = ''title'', btext = u ''Acme Co''\<rparr>], {u ''Acme Co''})))"
    by simp
  from texts_distinct_when_head_distinct[OF acme_extract acme_head d] d
  show ?thesis by simp
qed

text \<open>
  Once \<open>setup_driver\<close> has run its script without an exception, no exit path of
  \<open>fetch_with_selenium\<close> leaves the browser running.
\<close>

theorem browser_stopped_when_setup_returns:
  "hide_webdriver_ok e \<Longrightarrow> snd (fetch_with_selenium e) \<noteq> Running"
  by (simp add: fetch_with_selenium_def try_block_def setup_driver_def Let_def)

theorem browser_stopped_when_setup_returns_witness:
  "hide_webdriver_ok timeout_env \<and>
   fetch_with_selenium timeout_env = (Inl (FetchError TimeoutException), Stopped) \<and>
   snd (fetch_with_selenium timeout_env) \<noteq> Running"
proof -
  have h: "hide_webdriver_ok timeout_env" by (simp add: timeout_env_def)
  have "fetch_with_selenium timeout_env = (Inl (FetchError TimeoutException), Stopped)"
    by (simp add: fetch_with_selenium_def try_block_def setup_driver_def after_creation_def
        timeout_env_def Let_def)
  then show ?thesis using h browser_stopped_when_setup_returns[OF h] by (intro conjI)
qed

text \<open>
  With a \<open>body\<close> element in the document the extraction never ends in the
  \<open>AttributeError\<close> of a missing content root.
\<close>

theorem no_attribute_error_with_body:
  "find_tag (named [''body'']) (decompose_all removed_tags html) = Some b \<Longrightarrow>
   extract_content html \<noteq> Inl AttributeError"
  by (auto simp: extract_content_def main_content_def or_else_def Let_def desc_step_def
      split: sum.splits option.splits attr_value.splits if_splits)

theorem no_attribute_error_with_body_witness:
  "find_tag (named [''body'']) (decompose_all removed_tags heading_only_html) =
     Some (Tag ''body'' [] [same_h2]) \<and>
   extract_content heading_only_html \<noteq> Inl AttributeError"
proof -
  have b: "find_tag (named [''body'']) (decompose_all removed_tags heading_only_html) =
     Some (Tag ''body'' [] [same_h2])"
    by (simp add: heading_only_html_def same_h2_def tree_defs)
  from no_attribute_error_with_body[OF b] b show ?thesis by (intro conjI)
qed

text \<open>
  On a string without U+200B and U+FEFF the normalizer is idempotent: only the removal
  of these two characters after the whitespace runs were collapsed can leave two spaces
  next to each other.
\<close>

theorem clean_text_idempotent_without_zero_width:
  assumes "no_zero_width s"
  shows "clean_text (clean_text s) = clean_text s"
proof -
  let ?w = "sub_whitespace (filter (\<lambda>c. \<not> is_control c) s)"
  let ?r = "strip ?w"
  have r: "clean_text s = ?r" using assms by (rule clean_text_eq_strip)
  have p: "plain_spaces ?r" using sub_whitespace_plain by (rule strip_plain)
  have "set ?w \<subseteq> insert 0x20 (set (filter (\<lambda>c. \<not> is_control c) s))" by (rule sub_whitespace_set)
  then have sub: "set ?r \<subseteq> insert 0x20 (set (filter (\<lambda>c. \<not> is_control c) s))" using strip_set[of ?w] by blast
  have "\<not> is_control 0x20" by (simp add: is_control_def)
  then have nc: "filter (\<lambda>c. \<not> is_control c) ?r = ?r" using sub by (auto simp: filter_id_conv)
  have nz: "no_zero_width ?r" using sub assms by (auto simp: no_zero_width_def)
  have "clean_text ?r = strip (sub_whitespace (filter (\<lambda>c. \<not> is_control c) ?r))"
    using nz by (rule clean_text_eq_strip)
  also have "\<dots> = strip ?r" using nc sub_whitespace_id[OF p] by simp
  also have "\<dots> = ?r" by (rule strip_strip)
  finally show ?thesis using r by simp
qed

theorem clean_text_idempotent_without_zero_width_witness:
  "no_zero_width [0x20, 0x61, 0x09, 0x0a, 0xa0, 0x62, 0x07] \<and>
   clean_text [0x20, 0x61, 0x09, 0x0a, 0xa0, 0x62, 0x07] = [0x61, 0x20, 0x62] \<and>
   clean_text (clean_text [0x20, 0x61, 0x09, 0x0a, 0xa0, 0x62, 0x07]) =
     clean_text [0x20, 0x61, 0x09, 0x0a, 0xa0, 0x62, 0x07]"
proof -
  have n: "no_zero_width [0x20, 0x61, 0x09, 0x0a, 0xa0, 0x62, 0x07]"
    by (simp add: no_zero_width_def)
  have "clean_text [0x20, 0x61, 0x09, 0x0a, 0xa0, 0x62, 0x07] = [0x61, 0x20, 0x62]"
    by (simp add: text_defs)
  then show ?thesis using n clean_text_idempotent_without_zero_width[OF n] by (intro conjI)
qed

end
